theory Spec2Isabelle
  imports Main "HOL-Library.Sublist"
begin

unbundle bit_operations_syntax

section \<open>The MIDI to OSC bridge of examples/midi-osc-server.py\<close>

text \<open>
  The bridge is one Python function, \<open>main\<close>. Everything it does is a call into a
  library (pygame.midi, python-osc, logging, time), so the model is a function from the command
  line and the behaviour of those libraries to the sequence of calls \<open>main\<close> makes and
  the way it ends. Python integers are \<open>int\<close>; strings are \<open>string\<close>.
\<close>

subsection \<open>Exceptions, calls and the world\<close>

text \<open>
  \<open>KeyboardInterrupt\<close> is the one exception the source names; \<open>Error c\<close> is any other
  exception, of class \<open>c\<close> (an \<open>OSError\<close> of a socket, a \<open>MidiException\<close> of
  pygame). An interrupt is observed at a library call: the call raises it.
\<close>

datatype exn = KeyboardInterrupt | Error string

datatype level = INFO | ERROR

text \<open>
  The calls with an effect outside the process, in the source's names. \<open>Sleep\<close> carries
  the interval in milliseconds (\<open>time.sleep(0.01)\<close> is \<open>Sleep 10\<close>), \<open>Read\<close> the
  batch bound, \<open>Log\<close> the level and the formatted text of a \<open>logger\<close> call.
  A call is recorded when it is made, whether it returns or raises.
\<close>

datatype call =
    Midi_init
  | Midi_quit
  | Open_input int
  | Make_client string int
  | Poll
  | Read nat
  | Send_message string "int list"
  | Log level string
  | Sleep nat
  | Close

datatype handler = Print_handler

text \<open>
  The state \<open>main\<close> threads: the calls made so far, the handlers mapped on the inbound
  dispatcher \<open>disp\<close>, and what the network does to the sends still to come: the head of
  \<open>send_script\<close> is the fate of the next \<open>send_message\<close> (\<open>None\<close>: it returns,
  \<open>Some e\<close>: it raises \<open>e\<close>); past the end of the script every send returns.
\<close>

record world =
  trace :: "call list"
  disp :: "(string \<times> handler) list"
  send_script :: "exn option list"

definition emit :: "call \<Rightarrow> world \<Rightarrow> world" where
  "emit c w = w\<lparr>trace := trace w @ [c]\<rparr>"

definition logger_info :: "string \<Rightarrow> world \<Rightarrow> world" where
  "logger_info text w = emit (Log INFO text) w"

definition logger_error :: "string \<Rightarrow> world \<Rightarrow> world" where
  "logger_error text w = emit (Log ERROR text) w"

definition send_message :: "string \<Rightarrow> int list \<Rightarrow> world \<Rightarrow> exn option \<times> world" where
  "send_message addr xs w =
     (case send_script w of
        [] \<Rightarrow> (None, emit (Send_message addr xs) w)
      | r # rest \<Rightarrow> (r, emit (Send_message addr xs) (w\<lparr>send_script := rest\<rparr>)))"

subsection \<open>Formatting\<close>

text \<open>Python's \<open>str\<close> of an integer, as the f-strings of the source render it.\<close>

fun str_nat :: "nat \<Rightarrow> string" where
  "str_nat n =
     (if n < 10 then [''0123456789'' ! n]
      else str_nat (n div 10) @ [''0123456789'' ! (n mod 10)])"

declare str_nat.simps [simp del]

definition str_int :: "int \<Rightarrow> string" where
  "str_int i = (if i < 0 then CHR ''-'' # str_nat (nat (- i)) else str_nat (nat i))"

text \<open>Python's \<open>repr\<close> of a tuple of integers: \<open>()\<close>, \<open>(1,)\<close>, \<open>(1, 2)\<close>.\<close>

fun join_commas :: "string list \<Rightarrow> string" where
  "join_commas [] = []"
| "join_commas [s] = s"
| "join_commas (s # t # ss) = s @ '', '' @ join_commas (t # ss)"

definition repr_tuple :: "int list \<Rightarrow> string" where
  "repr_tuple xs =
     (case xs of
        [x] \<Rightarrow> ''('' @ str_int x @ '',)''
      | _ \<Rightarrow> ''('' @ join_commas (map str_int xs) @ '')'')"

text \<open>
  \<open>print_handler(address, *args)\<close>, lines 15 to 16: one INFO record. The arguments of an
  inbound message are taken to be integers, as those of the outbound ones are.
\<close>

definition print_handler :: "string \<Rightarrow> int list \<Rightarrow> world \<Rightarrow> world" where
  "print_handler address xs w =
     logger_info (''Received message at '' @ address @ '': '' @ repr_tuple xs) w"

subsection \<open>One raw datum: lines 62 to 80\<close>

text \<open>
  An event of \<open>midi_input.read\<close> is \<open>[[status, data1, data2, data3], timestamp]\<close>; the
  source names the first three \<open>status\<close>, \<open>note\<close>, \<open>velocity\<close> and drops the rest.
\<close>

type_synonym midi_event = "(int \<times> int \<times> int \<times> int) \<times> int"

text \<open>
  The \<open>match status & 0xF0\<close> statement of lines 67 to 80 selects at most one arm, the
  first whose pattern and guard hold. \<open>decode\<close> is that selection, with the values the arm
  goes on to send; \<open>Unrecognized\<close> is no arm (the statement has no default case).
  \<open>dispatch\<close> is the body of the selected arm.
\<close>

datatype semantic_event =
    NoteOn int int
  | NoteOff int int
  | ControlChange int int
  | PitchBend int
  | Unrecognized

definition decode :: "int \<Rightarrow> int \<Rightarrow> int \<Rightarrow> semantic_event" where
  "decode status note velocity =
     (let nibble = status AND 0xF0 in
      if nibble = 0x90 \<and> velocity > 0 then NoteOn note velocity
      else if nibble = 0x80 \<or> nibble = 0x90 then NoteOff note velocity
      else if nibble = 0xB0 then ControlChange note velocity
      else if nibble = 0xE0 then PitchBend (push_bit 7 velocity OR note)
      else Unrecognized)"

text \<open>
  Every send of the loop is followed by an INFO record; a send that raises leaves the
  statement before the record is written.
\<close>

definition send_and_log ::
  "string \<Rightarrow> int list \<Rightarrow> string \<Rightarrow> world \<Rightarrow> exn option \<times> world" where
  "send_and_log addr xs text w =
     (case send_message addr xs w of
        (Some e, w') \<Rightarrow> (Some e, w')
      | (None, w') \<Rightarrow> (None, logger_info text w'))"

fun dispatch :: "semantic_event \<Rightarrow> world \<Rightarrow> exn option \<times> world" where
  "dispatch (NoteOn note velocity) w =
     send_and_log ''/note_on'' [note, velocity]
       (''/note_on '' @ str_int note @ '' '' @ str_int velocity) w"
| "dispatch (NoteOff note velocity) w =
     send_and_log ''/note_off'' [note, velocity]
       (''/note_off '' @ str_int note @ '' '' @ str_int velocity) w"
| "dispatch (ControlChange note velocity) w =
     send_and_log ''/control_change'' [note, velocity]
       (''/control_change '' @ str_int note @ '' '' @ str_int velocity) w"
| "dispatch (PitchBend val) w =
     send_and_log ''/pitch_bend'' [val] (''/pitch_bend '' @ str_int val) w"
| "dispatch Unrecognized w = (None, w)"

definition process_event :: "midi_event \<Rightarrow> world \<Rightarrow> exn option \<times> world" where
  "process_event event w =
     (case event of ((status, note, velocity, _), _) \<Rightarrow>
        (case send_and_log ''/midi'' [status, note, velocity]
                (''/midi '' @ str_int status @ '' '' @ str_int note @ '' '' @ str_int velocity) w of
           (Some e, w') \<Rightarrow> (Some e, w')
         | (None, w') \<Rightarrow> dispatch (decode status note velocity) w'))"

text \<open>The \<open>for event in midi_events\<close> loop of line 61.\<close>

fun process_events :: "midi_event list \<Rightarrow> world \<Rightarrow> exn option \<times> world" where
  "process_events [] w = (None, w)"
| "process_events (event # rest) w =
     (case process_event event w of
        (Some e, w') \<Rightarrow> (Some e, w')
      | (None, w') \<Rightarrow> process_events rest w')"

subsection \<open>The polling loop: lines 58 to 82\<close>

text \<open>
  What the device and the clock do in one iteration of \<open>while True\<close>: the result of
  \<open>midi_input.poll()\<close>, of \<open>midi_input.read(10)\<close> (read only when the poll was true) and
  of \<open>time.sleep(0.01)\<close>.
\<close>

record iteration =
  it_poll :: "exn + bool"
  it_read :: "exn + midi_event list"
  it_sleep :: "exn option"

definition loop_body :: "iteration \<Rightarrow> world \<Rightarrow> exn option \<times> world" where
  "loop_body it w =
     (case it_poll it of
        Inl e \<Rightarrow> (Some e, emit Poll w)
      | Inr pending \<Rightarrow>
          (case (if pending then
                   (case it_read it of
                      Inl e \<Rightarrow> (Some e, emit (Read 10) (emit Poll w))
                    | Inr midi_events \<Rightarrow>
                        process_events midi_events (emit (Read 10) (emit Poll w)))
                 else (None, emit Poll w)) of
             (Some e, w') \<Rightarrow> (Some e, w')
           | (None, w') \<Rightarrow> (it_sleep it, emit (Sleep 10) w')))"

text \<open>
  \<open>while True\<close> has no exit but an exception. The loop is run against the iterations the
  environment provides; when they are used up the loop is still running, which is the
  result \<open>None\<close>.
\<close>

fun run_loop :: "iteration list \<Rightarrow> world \<Rightarrow> exn option \<times> world" where
  "run_loop [] w = (None, w)"
| "run_loop (it # its) w =
     (case loop_body it w of
        (Some e, w') \<Rightarrow> (Some e, w')
      | (None, w') \<Rightarrow> run_loop its w')"

subsection \<open>The try statement: lines 56 to 88\<close>

datatype outcome = Running | Returned | Sys_exit int | Uncaught exn

definition finally_block :: "world \<Rightarrow> world" where
  "finally_block w = logger_info ''Server closed.'' (emit Midi_quit (emit Close w))"

definition run_session :: "iteration list \<Rightarrow> world \<Rightarrow> outcome \<times> world" where
  "run_session its w =
     (case run_loop its w of
        (None, w') \<Rightarrow> (Running, w')
      | (Some e, w') \<Rightarrow>
          (case e of
             KeyboardInterrupt \<Rightarrow>
               (Returned, finally_block (logger_info ''Shutting down server.'' w'))
           | Error c \<Rightarrow> (Uncaught (Error c), finally_block w')))"

subsection \<open>Startup: lines 19 to 54\<close>

record cli_args =
  ip :: string
  port :: int
  client_ip :: string
  client_port :: int
  midi_device :: "int option"
  list_midi_devices :: bool

text \<open>
  \<open>pygame.midi.get_device_info\<close> gives \<open>(interf, name, is_input, is_output, opened)\<close>;
  the two names are taken already decoded.
\<close>

type_synonym device_info = "string \<times> string \<times> int \<times> int \<times> int"

text \<open>
  The libraries at startup: the device table, the default input id (\<open>-1\<close> when there is
  none), whether \<open>pygame.midi.Input(id)\<close> and \<open>SimpleUDPClient(ip, port)\<close> raise, and
  then what the loop meets.
\<close>

record environment =
  devices :: "device_info list"
  default_input_id :: int
  open_result :: "int \<Rightarrow> exn option"
  client_result :: "string \<Rightarrow> int \<Rightarrow> exn option"
  iterations :: "iteration list"
  send_results :: "exn option list"

fun list_devices :: "nat \<Rightarrow> device_info list \<Rightarrow> world \<Rightarrow> world" where
  "list_devices i [] w = w"
| "list_devices i ((interf, name, is_input, is_output, opened) # rest) w =
     list_devices (Suc i) rest
       (if is_input \<noteq> 0
        then logger_info (''ID '' @ str_nat i @ '': Interface: '' @ interf @ '', Name: '' @ name
                          @ '', Opened: '' @ str_int opened) w
        else w)"

definition select_input :: "cli_args \<Rightarrow> environment \<Rightarrow> world \<Rightarrow> world + int" where
  "select_input args env w =
     (case midi_device args of
        None \<Rightarrow>
          (if default_input_id env = - 1
           then Inl (logger_error ''No MIDI input device found.'' w)
           else Inr (default_input_id env))
      | Some d \<Rightarrow> Inr d)"

definition main :: "cli_args \<Rightarrow> environment \<Rightarrow> outcome \<times> world" where
  "main args env =
     (let w0 = emit Midi_init \<lparr>trace = [], disp = [], send_script = send_results env\<rparr> in
      if list_midi_devices args
      then (Sys_exit 0, emit Midi_quit (list_devices 0 (devices env) w0))
      else
        (let w1 = w0\<lparr>disp := disp w0 @ [(''/print'', Print_handler)]\<rparr> in
         case select_input args env w1 of
           Inl w2 \<Rightarrow> (Sys_exit 1, w2)
         | Inr input_id \<Rightarrow>
             (let w2 = emit (Open_input input_id) w1 in
              case open_result env input_id of
                Some e \<Rightarrow> (Uncaught e, w2)
              | None \<Rightarrow>
                  (let w3 = logger_info (''Using MIDI input device ID '' @ str_int input_id) w2;
                       w4 = emit (Make_client (client_ip args) (client_port args)) w3 in
                   case client_result env (client_ip args) (client_port args) of
                     Some e \<Rightarrow> (Uncaught e, w4)
                   | None \<Rightarrow> run_session (iterations env) w4))))"

text \<open>
  The status the process ends with: \<open>0\<close> when \<open>main\<close> returns, the argument of
  \<open>sys.exit\<close>, and the interpreter's status for an exception nothing caught (\<open>1\<close>; an
  uncaught interrupt ends the process as the signal does, which a shell reports as
  \<open>130\<close>).
\<close>

fun exit_status :: "outcome \<Rightarrow> int option" where
  "exit_status Running = None"
| "exit_status Returned = Some 0"
| "exit_status (Sys_exit c) = Some c"
| "exit_status (Uncaught KeyboardInterrupt) = Some 130"
| "exit_status (Uncaught (Error c)) = Some 1"

subsection \<open>Reading a trace\<close>

text \<open>The OSC messages of a trace, in the order they were sent.\<close>

definition sent :: "call list \<Rightarrow> (string \<times> int list) list" where
  "sent cs = concat (map (\<lambda>c. case c of Send_message a xs \<Rightarrow> [(a, xs)] | _ \<Rightarrow> []) cs)"

text \<open>The log records of a trace, in the order they were written.\<close>

definition logged :: "call list \<Rightarrow> (level \<times> string) list" where
  "logged cs = concat (map (\<lambda>c. case c of Log l t \<Rightarrow> [(l, t)] | _ \<Rightarrow> []) cs)"

text \<open>The messages the loop sends for one datum on its own, when no send fails.\<close>

definition event_messages :: "midi_event \<Rightarrow> (string \<times> int list) list" where
  "event_messages event =
     sent (trace (snd (process_event event \<lparr>trace = [], disp = [], send_script = []\<rparr>)))"

text \<open>Whether the next \<open>send_message\<close> returns.\<close>

definition next_send_ok :: "world \<Rightarrow> bool" where
  "next_send_ok w = (case send_script w of [] \<Rightarrow> True | r # _ \<Rightarrow> r = None)"

text \<open>The first character of the text of a log record.\<close>

definition log_initial :: "call \<Rightarrow> char option" where
  "log_initial c =
     (case c of Log l t \<Rightarrow> (case t of [] \<Rightarrow> None | ch # _ \<Rightarrow> Some ch) | _ \<Rightarrow> None)"

text \<open>
  The calls of lines 64 to 80: a send, or the INFO record that follows one (its text starts
  with the address, so with a slash). The calls of the loop are those, the poll, the read
  of at most ten events and the sleep of ten milliseconds.
\<close>

definition is_dispatch_call :: "call \<Rightarrow> bool" where
  "is_dispatch_call c =
     (case c of
        Send_message a xs \<Rightarrow> True
      | Log l t \<Rightarrow> l = INFO \<and> log_initial c = Some CHR ''/''
      | _ \<Rightarrow> False)"

definition is_loop_call :: "call \<Rightarrow> bool" where
  "is_loop_call c = (is_dispatch_call c \<or> c = Poll \<or> c = Read 10 \<or> c = Sleep 10)"

text \<open>A call that is not a record of \<open>print_handler\<close>, whose text starts with \<open>R\<close>.\<close>

definition handler_free :: "call \<Rightarrow> bool" where
  "handler_free c = (log_initial c \<noteq> Some CHR ''R'')"

subsection \<open>Concrete runs\<close>

text \<open>The defaults of the argument parser, lines 21 to 26.\<close>

definition default_args :: cli_args where
  "default_args =
     \<lparr>ip = ''localhost'', port = 8000, client_ip = ''localhost'', client_port = 9000,
      midi_device = None, list_midi_devices = False\<rparr>"

text \<open>
  An environment with default input device 0 in which every call returns and the loop has
  not yet run; one in which no device can be opened; and one with a note-on pending at the
  first poll, nothing at the second, and a network that refuses the first send.
\<close>

definition quiet_env :: environment where
  "quiet_env =
     \<lparr>devices = [], default_input_id = 0, open_result = (\<lambda>_. None),
      client_result = (\<lambda>_ _. None), iterations = [], send_results = []\<rparr>"

definition missing_device_env :: environment where
  "missing_device_env = quiet_env\<lparr>open_result := (\<lambda>_. Some (Error ''MidiException''))\<rparr>"

definition note_on_event :: midi_event where
  "note_on_event = ((0x90, 60, 100, 0), 0)"

definition unreachable_env :: environment where
  "unreachable_env =
     quiet_env\<lparr>iterations :=
                  [\<lparr>it_poll = Inr True, it_read = Inr [note_on_event], it_sleep = None\<rparr>,
                   \<lparr>it_poll = Inr False, it_read = Inr [], it_sleep = None\<rparr>],
               send_results := [Some (Error ''OSError'')]\<rparr>"

section \<open>Properties\<close>

subsection \<open>Traces of one datum and of a batch\<close>

lemma sent_append: "sent (xs @ ys) = sent xs @ sent ys"
  by (simp add: sent_def)

lemma sent_simps [simp]:
  "sent [] = []"
  "sent (Send_message a xs # cs) = (a, xs) # sent cs"
  "sent (Log l t # cs) = sent cs"
  "sent (Poll # cs) = sent cs"
  "sent (Read k # cs) = sent cs"
  "sent (Sleep k # cs) = sent cs"
  "sent (Close # cs) = sent cs"
  "sent (Midi_quit # cs) = sent cs"
  "sent (Midi_init # cs) = sent cs"
  "sent (Open_input i # cs) = sent cs"
  "sent (Make_client h p # cs) = sent cs"
  by (simp_all add: sent_def)

lemmas dispatch_defs =
  process_event_def send_and_log_def send_message_def emit_def logger_info_def

lemma event_messages_eq:
  "event_messages ((s, n, v, d), t) =
     (''/midi'', [s, n, v]) #
       (case decode s n v of
          NoteOn a b \<Rightarrow> [(''/note_on'', [a, b])]
        | NoteOff a b \<Rightarrow> [(''/note_off'', [a, b])]
        | ControlChange a b \<Rightarrow> [(''/control_change'', [a, b])]
        | PitchBend x \<Rightarrow> [(''/pitch_bend'', [x])]
        | Unrecognized \<Rightarrow> [])"
  by (cases "decode s n v") (simp_all add: event_messages_def dispatch_defs)

lemma process_event_sent:
  "\<exists>ms. sent (trace (snd (process_event e w))) = sent (trace w) @ ms
      \<and> prefix ms (event_messages e)
      \<and> (fst (process_event e w) = None \<longrightarrow> ms = event_messages e)"
proof -
  obtain s n v d t where e: "e = ((s, n, v, d), t)" by (metis prod.exhaust)
  show ?thesis unfolding e event_messages_eq
    by (cases "decode s n v")
      (auto simp: dispatch_defs sent_append split: list.splits option.splits)
qed

lemma is_dispatch_call_simps [simp]:
  "is_dispatch_call (Send_message a xs)" "is_dispatch_call (Log INFO (CHR ''/'' # t))"
  "\<not> is_dispatch_call Poll" "\<not> is_dispatch_call (Read k)" "\<not> is_dispatch_call (Sleep k)"
  "\<not> is_dispatch_call Close" "\<not> is_dispatch_call Midi_quit" "\<not> is_dispatch_call Midi_init"
  by (simp_all add: is_dispatch_call_def log_initial_def)

lemma process_event_dcalls:
  "\<exists>cs. trace (snd (process_event e w)) = trace w @ cs \<and> list_all is_dispatch_call cs"
proof -
  obtain s n v d t where e: "e = ((s, n, v, d), t)" by (metis prod.exhaust)
  show ?thesis unfolding e
    by (cases "decode s n v") (auto simp: dispatch_defs split: list.splits option.splits)
qed

lemma process_events_dcalls:
  "\<exists>cs. trace (snd (process_events evs w)) = trace w @ cs \<and> list_all is_dispatch_call cs"
proof (induction evs arbitrary: w)
  case Nil
  show ?case by simp
next
  case (Cons e evs)
  obtain r w1 where step: "process_event e w = (r, w1)" by (cases "process_event e w")
  obtain cs1 where cs1: "trace w1 = trace w @ cs1" "list_all is_dispatch_call cs1"
    using process_event_dcalls [of e w] step by auto
  obtain cs2 where cs2: "trace (snd (process_events evs w1)) = trace w1 @ cs2"
      "list_all is_dispatch_call cs2"
    using Cons.IH [of w1] by auto
  show ?case using step cs1 cs2 by (cases r) auto
qed


subsection \<open>The decoder\<close>

text \<open>
  Claim C1. Applied to any raw datum, the decoder classifies by the table of status nibbles:
  nibble 0x90 with a velocity above zero gives NoteOn with the note and velocity of the
  datum; nibble 0x90 with velocity zero gives NoteOff; nibble 0x80 gives NoteOff whatever
  the velocity; nibble 0xB0 gives ControlChange; nibble 0xE0 gives PitchBend; every other
  nibble gives Unrecognized. The decoder has a result for every datum, one of these five,
  and the result is never a NoteOn of velocity zero.
\<close>

theorem decode_table:
  "(s AND 0xF0 = 0x90 \<and> v > 0 \<longrightarrow> decode s n v = NoteOn n v)
   \<and> (s AND 0xF0 = 0x90 \<and> v = 0 \<longrightarrow> decode s n v = NoteOff n v)
   \<and> (s AND 0xF0 = 0x80 \<longrightarrow> decode s n v = NoteOff n v)
   \<and> (s AND 0xF0 = 0xB0 \<longrightarrow> decode s n v = ControlChange n v)
   \<and> (s AND 0xF0 = 0xE0 \<longrightarrow> decode s n v = PitchBend (push_bit 7 v OR n))
   \<and> (s AND 0xF0 \<notin> {0x80, 0x90, 0xB0, 0xE0} \<longrightarrow> decode s n v = Unrecognized)
   \<and> decode s n v \<in> {NoteOn n v, NoteOff n v, ControlChange n v,
                        PitchBend (push_bit 7 v OR n), Unrecognized}
   \<and> (\<forall>k. decode s n v \<noteq> NoteOn k 0)"
  by (simp add: decode_def Let_def)

theorem decode_table_witness:
  "decode 0x90 60 100 = NoteOn 60 100 \<and> decode 0x93 60 0 = NoteOff 60 0
   \<and> decode 0x80 60 64 = NoteOff 60 64 \<and> decode 0xB1 7 127 = ControlChange 7 127
   \<and> decode 0xE0 0 0x40 = PitchBend 8192 \<and> decode 0xF8 0 0 = Unrecognized"
  using decode_table [of "0x90" 100 60] decode_table [of "0x93" 0 60]
    decode_table [of "0x80" 64 60] decode_table [of "0xB1" 127 7]
    decode_table [of "0xE0" "0x40" 0] decode_table [of "0xF8" 0 0]
  by simp

subsection \<open>The raw pass-through\<close>



subsection \<open>Pitch bend\<close>

text \<open>
  Claim C3. For every raw datum whose status nibble is 0xE0 the value dispatched to
  /pitch_bend is (data2 << 7) | data1: the datum sends /midi and then, unless the /midi
  send raised, /pitch_bend with that one argument. When both data bytes are 7-bit values
  (0 to 127) the value lies in 0 to 16383, and data1 = 0x00 with data2 = 0x40 gives 8192.
\<close>

theorem pitch_bend_value:
  assumes "s AND 0xF0 = 0xE0"
  shows "decode s d1 d2 = PitchBend (push_bit 7 d2 OR d1)
       \<and> sent (trace (snd (process_event ((s, d1, d2, d), t) w)))
           = sent (trace w) @ (''/midi'', [s, d1, d2])
               # (if next_send_ok w then [(''/pitch_bend'', [push_bit 7 d2 OR d1])] else [])
       \<and> (0 \<le> d1 \<and> d1 \<le> 127 \<and> 0 \<le> d2 \<and> d2 \<le> 127
            \<longrightarrow> 0 \<le> push_bit 7 d2 OR d1 \<and> push_bit 7 d2 OR d1 \<le> 16383)
       \<and> (d1 = 0x00 \<and> d2 = 0x40 \<longrightarrow> push_bit 7 d2 OR d1 = 8192)"
proof -
  have dec: "decode s d1 d2 = PitchBend (push_bit 7 d2 OR d1)"
    using assms by (simp add: decode_def)
  have "sent (trace (snd (process_event ((s, d1, d2, d), t) w)))
           = sent (trace w) @ (''/midi'', [s, d1, d2])
               # (if next_send_ok w then [(''/pitch_bend'', [push_bit 7 d2 OR d1])] else [])"
    by (auto simp: dec next_send_ok_def dispatch_defs sent_append
          split: list.splits option.splits)
  moreover have "0 \<le> push_bit 7 d2 OR d1 \<and> push_bit 7 d2 OR d1 \<le> 16383"
    if r: "0 \<le> d1 \<and> d1 \<le> 127 \<and> 0 \<le> d2 \<and> d2 \<le> 127"
  proof -
    have a: "0 \<le> push_bit 7 d2" using r by simp
    have b: "push_bit 7 d2 < 2 ^ 14" using r by (simp add: push_bit_eq_mult)
    have c: "d1 < 2 ^ 14" using r by simp
    have "push_bit 7 d2 OR d1 < 2 ^ 14" by (rule OR_upper [OF a b c])
    moreover have "0 \<le> push_bit 7 d2 OR d1" using a r by simp
    ultimately show ?thesis by simp
  qed
  moreover have "d1 = 0x00 \<and> d2 = 0x40 \<longrightarrow> push_bit 7 d2 OR d1 = 8192" by simp
  ultimately show ?thesis using dec by blast
qed

theorem pitch_bend_value_witness:
  "sent (trace (snd (process_event ((0xE3, 0x00, 0x40, 0), 17)
                       \<lparr>trace = [], disp = [], send_script = []\<rparr>)))
     = [(''/midi'', [0xE3, 0, 0x40]), (''/pitch_bend'', [8192])]
   \<and> 0 \<le> push_bit 7 (0x40::int) OR 0 \<and> push_bit 7 (0x40::int) OR 0 \<le> 16383"
  using pitch_bend_value [of "0xE3" "0x00" "0x40" 0 17 "\<lparr>trace = [], disp = [], send_script = []\<rparr>"]
  by (simp add: next_send_ok_def)

subsection \<open>Unrecognized status\<close>

text \<open>
  Claim C4. For every raw datum whose status nibble is none of 0x80, 0x90, 0xB0 and 0xE0
  the decoder gives Unrecognized, and the only message sent for the datum is the raw
  pass-through to /midi: nothing goes to /note_on, /note_off, /control_change or
  /pitch_bend.
\<close>

theorem unrecognized_raw_only:
  assumes "s AND 0xF0 \<notin> {0x80, 0x90, 0xB0, 0xE0}"
  shows "decode s n v = Unrecognized
       \<and> sent (trace (snd (process_event ((s, n, v, d), t) w)))
           = sent (trace w) @ [(''/midi'', [s, n, v])]"
  using assms
  by (auto simp: decode_def Let_def dispatch_defs sent_append split: list.splits option.splits)

theorem unrecognized_raw_only_witness:
  "decode 0xF8 0 0 = Unrecognized
   \<and> sent (trace (snd (process_event ((0xF8, 0, 0, 0), 3)
                         \<lparr>trace = [], disp = [], send_script = [Some (Error ''OSError'')]\<rparr>)))
       = [(''/midi'', [0xF8, 0, 0])]"
  using unrecognized_raw_only [of "0xF8" 0 0 0 3
      "\<lparr>trace = [], disp = [], send_script = [Some (Error ''OSError'')]\<rparr>"]
  by simp

subsection \<open>Order within a batch\<close>

text \<open>
  Claim C5. For every batch read in one poll, the messages are sent in the arrival order of
  the data, with no reordering and no coalescing: what the batch sends is the messages of
  its first datum, then those of its second, and so on, each datum's messages being those
  it sends on its own. When a send raises, what was sent is an initial part of that
  sequence; when none does, it is the whole sequence.
\<close>

theorem batch_order_preserved:
  "\<exists>ms. sent (trace (snd (process_events evs w))) = sent (trace w) @ ms
      \<and> prefix ms (concat (map event_messages evs))
      \<and> (fst (process_events evs w) = None \<longrightarrow> ms = concat (map event_messages evs))"
proof (induction evs arbitrary: w)
  case Nil
  show ?case by simp
next
  case (Cons e evs)
  obtain r w1 where step: "process_event e w = (r, w1)" by (cases "process_event e w")
  obtain ms1 where ms1: "sent (trace w1) = sent (trace w) @ ms1"
      "prefix ms1 (event_messages e)" "r = None \<longrightarrow> ms1 = event_messages e"
    using process_event_sent [of e w] step by auto
  show ?case
  proof (cases r)
    case (Some x)
    then show ?thesis using step ms1 by (auto intro: prefix_prefix)
  next
    case None
    obtain ms2 where ms2: "sent (trace (snd (process_events evs w1))) = sent (trace w1) @ ms2"
        "prefix ms2 (concat (map event_messages evs))"
        "fst (process_events evs w1) = None \<longrightarrow> ms2 = concat (map event_messages evs)"
      using Cons.IH [of w1] by auto
    have "ms1 = event_messages e" using None ms1 by simp
    then show ?thesis using step None ms1 ms2 by auto
  qed
qed

theorem batch_order_preserved_witness:
  "sent (trace (snd (process_events [((0x90, 60, 100, 0), 1), ((0x80, 60, 0, 0), 2)]
           \<lparr>trace = [], disp = [], send_script = []\<rparr>)))
     = [(''/midi'', [0x90, 60, 100]), (''/note_on'', [60, 100]),
        (''/midi'', [0x80, 60, 0]), (''/note_off'', [60, 0])]"
proof -
  have r: "fst (process_events [((0x90, 60, 100, 0), 1), ((0x80, 60, 0, 0), 2)]
           \<lparr>trace = [], disp = [], send_script = []\<rparr>) = None"
    by (simp add: dispatch_defs decode_def)
  show ?thesis
    using batch_order_preserved [of "[((0x90, 60, 100, 0), 1), ((0x80, 60, 0, 0), 2)]"
        "\<lparr>trace = [], disp = [], send_script = []\<rparr>"] r
    by (simp add: event_messages_eq decode_def)
qed

subsection \<open>Traces of the loop\<close>

lemma process_event_script:
  assumes "send_script w = replicate k None @ Some x # rest"
  shows "(k < length (event_messages e) \<longrightarrow>
            fst (process_event e w) = Some x
          \<and> sent (trace (snd (process_event e w))) = sent (trace w) @ take (Suc k) (event_messages e))
       \<and> (\<not> k < length (event_messages e) \<longrightarrow>
            fst (process_event e w) = None
          \<and> sent (trace (snd (process_event e w))) = sent (trace w) @ event_messages e
          \<and> send_script (snd (process_event e w))
              = replicate (k - length (event_messages e)) None @ Some x # rest)"
proof -
  obtain s n v d t where e: "e = ((s, n, v, d), t)" by (metis prod.exhaust)
  consider "k = 0" | "k = 1" | j where "k = Suc (Suc j)"
    by (metis One_nat_def not0_implies_Suc)
  then show ?thesis
  proof cases
    case 1
    then show ?thesis using assms unfolding e event_messages_eq
      by (cases "decode s n v") (simp_all add: dispatch_defs sent_append)
  next
    case 2
    then show ?thesis using assms unfolding e event_messages_eq
      by (cases "decode s n v") (simp_all add: dispatch_defs sent_append)
  next
    case 3
    then show ?thesis using assms unfolding e event_messages_eq
      by (cases "decode s n v") (simp_all add: dispatch_defs sent_append)
  qed
qed

lemma process_events_script:
  assumes "send_script w = replicate k None @ Some x # rest"
    and "k < length (concat (map event_messages evs))"
  shows "fst (process_events evs w) = Some x
       \<and> sent (trace (snd (process_events evs w)))
           = sent (trace w) @ take (Suc k) (concat (map event_messages evs))"
  using assms
proof (induction evs arbitrary: w k)
  case Nil
  then show ?case by simp
next
  case (Cons e evs)
  obtain r w1 where step: "process_event e w = (r, w1)" by (cases "process_event e w")
  note ev = process_event_script [OF Cons.prems(1), of e]
  show ?case
  proof (cases "k < length (event_messages e)")
    case True
    then show ?thesis using ev step by simp
  next
    case False
    let ?k = "k - length (event_messages e)"
    have r: "r = None" and s1: "sent (trace w1) = sent (trace w) @ event_messages e"
      and sc: "send_script w1 = replicate ?k None @ Some x # rest"
      using ev step False by simp_all
    have lt: "?k < length (concat (map event_messages evs))"
      using Cons.prems(2) False by simp
    have tk: "take (Suc k) (concat (map event_messages (e # evs)))
          = event_messages e @ take (Suc ?k) (concat (map event_messages evs))"
      using False by (simp add: Suc_diff_le)
    show ?thesis using Cons.IH [OF sc lt] step r s1 tk by simp
  qed
qed

lemma process_event_raises:
  assumes "fst (process_event e w) = Some x"
  shows "\<exists>cs a xs. trace (snd (process_event e w)) = trace w @ cs @ [Send_message a xs]"
proof -
  obtain s n v d t where e: "e = ((s, n, v, d), t)" by (metis prod.exhaust)
  show ?thesis using assms unfolding e
    by (cases "decode s n v") (auto simp: dispatch_defs split: list.splits option.splits)
qed

lemma process_events_raises:
  "fst (process_events evs w) = Some x \<Longrightarrow>
     \<exists>cs a xs. trace (snd (process_events evs w)) = trace w @ cs @ [Send_message a xs]"
proof (induction evs arbitrary: w)
  case Nil
  then show ?case by simp
next
  case (Cons e evs)
  obtain r w1 where step: "process_event e w = (r, w1)" by (cases "process_event e w")
  show ?case
  proof (cases r)
    case (Some y)
    then show ?thesis using process_event_raises [of e w y] step by simp
  next
    case None
    obtain cs1 where cs1: "trace w1 = trace w @ cs1"
      using process_event_dcalls [of e w] step by auto
    have "fst (process_events evs w1) = Some x" using Cons.prems step None by simp
    from Cons.IH [OF this] obtain cs a xs where
      "trace (snd (process_events evs w1)) = trace w1 @ cs @ [Send_message a xs]" by blast
    then have "trace (snd (process_events (e # evs) w)) = trace w @ (cs1 @ cs) @ [Send_message a xs]"
      using step None cs1 by simp
    then show ?thesis by blast
  qed
qed

lemma dispatch_calls_loop_calls: "list_all is_dispatch_call cs \<Longrightarrow> list_all is_loop_call cs"
  by (induction cs) (auto simp: is_loop_call_def)

lemma loop_body_calls:
  "\<exists>cs. trace (snd (loop_body it w)) = trace w @ cs \<and> list_all is_loop_call cs"
proof (cases "it_poll it")
  case (Inl e)
  then show ?thesis by (simp add: loop_body_def emit_def is_loop_call_def)
next
  case (Inr pending)
  show ?thesis
  proof (cases "pending \<and> (\<exists>evs. it_read it = Inr evs)")
    case True
    then obtain evs where evs: "it_read it = Inr evs" and p: pending by auto
    let ?w = "emit (Read 10) (emit Poll w)"
    obtain cs where cs: "trace (snd (process_events evs ?w)) = trace ?w @ cs"
        "list_all is_dispatch_call cs"
      using process_events_dcalls [of evs ?w] by auto
    obtain r w1 where step: "process_events evs ?w = (r, w1)" by (cases "process_events evs ?w")
    show ?thesis using Inr evs p cs step dispatch_calls_loop_calls [OF cs(2)]
      by (cases r) (auto simp: loop_body_def emit_def is_loop_call_def)
  next
    case False
    then show ?thesis using Inr
      by (cases "it_read it") (auto simp: loop_body_def emit_def is_loop_call_def)
  qed
qed

lemma run_loop_calls:
  "\<exists>cs. trace (snd (run_loop its w)) = trace w @ cs \<and> list_all is_loop_call cs"
proof (induction its arbitrary: w)
  case Nil
  show ?case by simp
next
  case (Cons it its)
  obtain r w1 where step: "loop_body it w = (r, w1)" by (cases "loop_body it w")
  obtain cs1 where cs1: "trace w1 = trace w @ cs1" "list_all is_loop_call cs1"
    using loop_body_calls [of it w] step by auto
  obtain cs2 where cs2: "trace (snd (run_loop its w1)) = trace w1 @ cs2"
      "list_all is_loop_call cs2"
    using Cons.IH [of w1] by auto
  show ?case using step cs1 cs2 by (cases r) auto
qed

lemma run_loop_append:
  "run_loop (xs @ ys) w =
     (case run_loop xs w of (Some e, w') \<Rightarrow> (Some e, w') | (None, w') \<Rightarrow> run_loop ys w')"
  by (induction xs arbitrary: w) (auto split: prod.splits option.splits)




subsection \<open>A send that fails\<close>

text \<open>
  Claim C6, as the code has it. A send that raises an exception other than an interrupt is
  not caught and not logged. When, in an iteration that found events pending, the send
  number \<open>k + 1\<close> of the batch raises, the batch has sent exactly its first \<open>k + 1\<close>
  messages, the failed send is the last call of the loop (no log record follows it, and
  the iterations that would come after are never run), the finally block closes the
  device, quits the MIDI subsystem and logs the closing, and the exception leaves
  \<open>main\<close> uncaught. The calls before the failed send are sends and their INFO records only.
\<close>

theorem send_failure_ends_session:
  assumes "run_loop pre w = (None, w1)"
    and "it_poll it = Inr True" and "it_read it = Inr evs"
    and "send_script w1 = replicate k None @ Some (Error c) # rest"
    and "k < length (concat (map event_messages evs))"
  shows "\<exists>cs a xs.
           fst (run_session (pre @ it # post) w) = Uncaught (Error c)
         \<and> trace (snd (run_session (pre @ it # post) w))
             = trace w1 @ [Poll, Read 10] @ cs @ [Send_message a xs]
                 @ [Close, Midi_quit, Log INFO ''Server closed.'']
         \<and> list_all is_dispatch_call cs
         \<and> sent (cs @ [Send_message a xs]) = take (Suc k) (concat (map event_messages evs))"
proof -
  let ?w = "emit (Read 10) (emit Poll w1)"
  obtain r w2 where step: "process_events evs ?w = (r, w2)" by (cases "process_events evs ?w")
  have sc: "send_script ?w = replicate k None @ Some (Error c) # rest"
    using assms(4) by (simp add: emit_def)
  have r: "r = Some (Error c)"
    and s: "sent (trace w2) = sent (trace ?w) @ take (Suc k) (concat (map event_messages evs))"
    using process_events_script [OF sc assms(5)] step by simp_all
  obtain ds where ds: "trace w2 = trace ?w @ ds" "list_all is_dispatch_call ds"
    using process_events_dcalls [of evs ?w] step by auto
  obtain cs a xs where cs: "trace w2 = trace ?w @ cs @ [Send_message a xs]"
    using process_events_raises [of evs ?w "Error c"] step r by auto
  have eq: "ds = cs @ [Send_message a xs]" using ds(1) cs by simp
  have body: "loop_body it w1 = (Some (Error c), w2)"
    using assms(2,3) step r by (simp add: loop_body_def)
  have loop: "run_loop (pre @ it # post) w = (Some (Error c), w2)"
    using assms(1) body by (simp add: run_loop_append)
  have "fst (run_session (pre @ it # post) w) = Uncaught (Error c)"
    using loop by (simp add: run_session_def)
  moreover have "trace (snd (run_session (pre @ it # post) w))
             = trace w1 @ [Poll, Read 10] @ cs @ [Send_message a xs]
                 @ [Close, Midi_quit, Log INFO ''Server closed.'']"
    using loop cs by (simp add: run_session_def finally_block_def logger_info_def emit_def)
  moreover have "list_all is_dispatch_call cs" using ds(2) eq by simp
  moreover have "sent (cs @ [Send_message a xs]) = take (Suc k) (concat (map event_messages evs))"
    using s ds(1) eq by (simp add: sent_append)
  ultimately show ?thesis by blast
qed

theorem send_failure_ends_session_witness:
  "fst (run_session ([] @ \<lparr>it_poll = Inr True, it_read = Inr [note_on_event], it_sleep = None\<rparr>
                         # [\<lparr>it_poll = Inr False, it_read = Inr [], it_sleep = None\<rparr>])
            \<lparr>trace = [], disp = [], send_script = [None, Some (Error ''OSError'')]\<rparr>)
       = Uncaught (Error ''OSError'')
   \<and> trace (snd (run_session ([] @ \<lparr>it_poll = Inr True, it_read = Inr [note_on_event], it_sleep = None\<rparr>
                         # [\<lparr>it_poll = Inr False, it_read = Inr [], it_sleep = None\<rparr>])
            \<lparr>trace = [], disp = [], send_script = [None, Some (Error ''OSError'')]\<rparr>))
       = [Poll, Read 10, Send_message ''/midi'' [144, 60, 100], Log INFO ''/midi 144 60 100'',
          Send_message ''/note_on'' [60, 100], Close, Midi_quit, Log INFO ''Server closed.'']"
proof -
  let ?w = "\<lparr>trace = [], disp = [], send_script = [None, Some (Error ''OSError'')]\<rparr>"
  let ?it = "\<lparr>it_poll = Inr True, it_read = Inr [note_on_event], it_sleep = None\<rparr>"
  let ?post = "[\<lparr>it_poll = Inr False, it_read = Inr [], it_sleep = None\<rparr>]"
  have 1: "run_loop [] ?w = (None, ?w)" by simp
  have 2: "it_poll ?it = Inr True" by simp
  have 3: "it_read ?it = Inr [note_on_event]" by simp
  have 4: "send_script ?w = replicate 1 None @ Some (Error ''OSError'') # []" by simp
  have 5: "1 < length (concat (map event_messages [note_on_event]))"
    by (simp add: note_on_event_def event_messages_eq decode_def)
  have "fst (run_session ([] @ ?it # ?post) ?w) = Uncaught (Error ''OSError'')"
    using send_failure_ends_session [OF 1 2 3 4 5, of ?post] by blast
  moreover have "trace (snd (run_session ([] @ ?it # ?post) ?w))
       = [Poll, Read 10, Send_message ''/midi'' [144, 60, 100], Log INFO ''/midi 144 60 100'',
          Send_message ''/note_on'' [60, 100], Close, Midi_quit, Log INFO ''Server closed.'']"
    by (simp add: note_on_event_def run_session_def finally_block_def loop_body_def
          dispatch_defs decode_def str_int_def str_nat.simps)
  ultimately show ?thesis by simp
qed

text \<open>
  The claim as the specification words it (the failure is logged, the loop goes on, the
  session stays open) fails on the run of \<open>unreachable_env\<close>: the first send raises
  \<open>OSError\<close>; nothing is logged about it, the second iteration is never polled, the
  device is closed and the exception ends \<open>main\<close>.
\<close>

theorem send_failure_counterexample:
  "fst (main default_args unreachable_env) = Uncaught (Error ''OSError'')
   \<and> trace (snd (main default_args unreachable_env))
       = [Midi_init, Open_input 0, Log INFO ''Using MIDI input device ID 0'',
          Make_client ''localhost'' 9000, Poll, Read 10, Send_message ''/midi'' [144, 60, 100],
          Close, Midi_quit, Log INFO ''Server closed.'']
   \<and> logged (trace (snd (main default_args unreachable_env)))
       = [(INFO, ''Using MIDI input device ID 0''), (INFO, ''Server closed.'')]
   \<and> length (iterations unreachable_env) = 2
   \<and> count_list (trace (snd (main default_args unreachable_env))) Poll = 1
   \<and> Close \<in> set (trace (snd (main default_args unreachable_env)))"
  by (simp add: main_def select_input_def default_args_def quiet_env_def unreachable_env_def
        note_on_event_def run_session_def finally_block_def loop_body_def dispatch_defs
        str_int_def str_nat.simps Let_def logged_def)

subsection \<open>An explicit device that cannot be opened\<close>

text \<open>
  Claim C7, as the code has it. When \<open>--midi-device\<close> gives an id and opening that device
  raises, the exception is not caught: \<open>main\<close> ends with it after two calls, the
  initialisation of the MIDI subsystem and the attempt to open. No record is logged, no
  session and no client are created, nothing is sent, and the status of the process is
  the interpreter's 1 for an uncaught exception.
\<close>

theorem explicit_device_not_found:
  assumes "\<not> list_midi_devices args" and "midi_device args = Some d"
    and "open_result env d = Some (Error c)"
  shows "main args env =
           (Uncaught (Error c),
            \<lparr>trace = [Midi_init, Open_input d], disp = [(''/print'', Print_handler)],
             send_script = send_results env\<rparr>)
       \<and> exit_status (fst (main args env)) = Some 1"
  using assms by (simp add: main_def select_input_def emit_def Let_def)

theorem explicit_device_not_found_witness:
  "main (default_args\<lparr>midi_device := Some 99\<rparr>) missing_device_env
     = (Uncaught (Error ''MidiException''),
        \<lparr>trace = [Midi_init, Open_input 99], disp = [(''/print'', Print_handler)],
         send_script = []\<rparr>)"
proof -
  have 1: "\<not> list_midi_devices (default_args\<lparr>midi_device := Some 99\<rparr>)"
    by (simp add: default_args_def)
  have 2: "midi_device (default_args\<lparr>midi_device := Some 99\<rparr>) = Some 99" by simp
  have 3: "open_result missing_device_env 99 = Some (Error ''MidiException'')"
    by (simp add: missing_device_env_def quiet_env_def)
  show ?thesis using explicit_device_not_found [OF 1 2 3]
    by (simp add: missing_device_env_def quiet_env_def)
qed

text \<open>
  That the error is logged fails with device id 99 where no device can be opened: the
  trace of the run has no log record at all.
\<close>

theorem explicit_device_not_found_counterexample:
  "fst (main (default_args\<lparr>midi_device := Some 99\<rparr>) missing_device_env)
     = Uncaught (Error ''MidiException'')
   \<and> trace (snd (main (default_args\<lparr>midi_device := Some 99\<rparr>) missing_device_env))
       = [Midi_init, Open_input 99]
   \<and> logged (trace (snd (main (default_args\<lparr>midi_device := Some 99\<rparr>) missing_device_env)))
       = []"
  by (simp add: main_def select_input_def emit_def Let_def default_args_def quiet_env_def
        missing_device_env_def logged_def)

subsection \<open>Closing the device\<close>



subsection \<open>The sleep\<close>




subsection \<open>The listening address\<close>

lemma handler_free_simps [simp]:
  "handler_free Midi_init" "handler_free Midi_quit" "handler_free Close"
  "handler_free (Open_input i)" "handler_free (Make_client h p)"
  "handler_free (Log l (CHR ''I'' # t))" "handler_free (Log l (CHR ''U'' # t))"
  "handler_free (Log l (CHR ''S'' # t))" "handler_free (Log l (CHR ''N'' # t))"
  "\<not> handler_free (Log l (CHR ''R'' # t))"
  by (simp_all add: handler_free_def log_initial_def)

lemma loop_calls_handler_free: "list_all is_loop_call cs \<Longrightarrow> list_all handler_free cs"
proof (induction cs)
  case Nil
  show ?case by simp
next
  case (Cons c cs)
  have "handler_free c" using Cons.prems
    by (cases c)
      (auto simp: is_loop_call_def is_dispatch_call_def handler_free_def log_initial_def
         split: list.splits)
  then show ?case using Cons by simp
qed

lemma list_devices_handler_free:
  "list_all handler_free (trace w) \<Longrightarrow> list_all handler_free (trace (list_devices i ds w))"
proof (induction ds arbitrary: i w)
  case Nil
  then show ?case by simp
next
  case (Cons dev ds)
  obtain interf name is_input is_output opened
    where dev: "dev = (interf, name, is_input, is_output, opened)" by (metis prod.exhaust)
  show ?case unfolding dev using Cons.prems
    by (auto intro!: Cons.IH simp: logger_info_def emit_def)
qed

lemma run_session_handler_free:
  assumes "list_all handler_free (trace w)"
  shows "list_all handler_free (trace (snd (run_session its w)))"
proof -
  obtain r w1 where step: "run_loop its w = (r, w1)" by (cases "run_loop its w")
  obtain cs where cs: "trace w1 = trace w @ cs" "list_all is_loop_call cs"
    using run_loop_calls [of its w] step by auto
  have w1: "list_all handler_free (trace w1)"
    using cs assms by (simp add: loop_calls_handler_free)
  show ?thesis
  proof (cases r)
    case None
    then show ?thesis using step w1 by (simp add: run_session_def)
  next
    case (Some e)
    then show ?thesis using step w1
      by (cases e) (simp_all add: run_session_def finally_block_def logger_info_def emit_def)
  qed
qed

lemma main_handler_free: "list_all handler_free (trace (snd (main args env)))"
proof -
  let ?w0 = "emit Midi_init \<lparr>trace = [], disp = [], send_script = send_results env\<rparr>"
  have w0: "list_all handler_free (trace ?w0)" by (simp add: emit_def)
  show ?thesis
  proof (cases "list_midi_devices args")
    case True
    then show ?thesis using list_devices_handler_free [OF w0, of 0 "devices env"]
      by (simp add: main_def emit_def Let_def)
  next
    case False
    then show ?thesis
      by (auto simp: main_def select_input_def Let_def emit_def logger_info_def logger_error_def
            intro!: run_session_handler_free split: option.splits)
  qed
qed

text \<open>
  Claim C10. Two runs that differ only in the values of \<open>--ip\<close> and \<open>--port\<close> and meet
  the same environment (the same raw MIDI data among it) are the same run: the same calls
  in the same order, so the same OSC messages to the client, and the same end. The
  handler mapped to /print is never invoked: no run writes the record the handler
  writes, for any address and arguments.
\<close>

theorem listen_flags_unused:
  "main (args\<lparr>ip := a, port := p\<rparr>) env = main args env
   \<and> (\<forall>address xs w. last (trace (print_handler address xs w))
          \<notin> set (trace (snd (main args env))))"
proof -
  have "main (args\<lparr>ip := a, port := p\<rparr>) env = main args env"
    by (simp add: main_def select_input_def Let_def split: option.splits sum.splits)
  moreover have "last (trace (print_handler address xs w)) \<notin> set (trace (snd (main args env)))"
    for address xs w
  proof
    assume "last (trace (print_handler address xs w)) \<in> set (trace (snd (main args env)))"
    then have "handler_free (last (trace (print_handler address xs w)))"
      using main_handler_free [of args env] by (simp add: list_all_iff)
    then show False by (simp add: print_handler_def logger_info_def emit_def)
  qed
  ultimately show ?thesis by blast
qed

theorem listen_flags_unused_witness:
  "main (default_args\<lparr>ip := ''0.0.0.0'', port := 5005\<rparr>) unreachable_env
     = main default_args unreachable_env
   \<and> Log INFO ''Received message at /print: (1,)''
        \<notin> set (trace (snd (main default_args unreachable_env)))"
proof -
  have "last (trace (print_handler ''/print'' [1] \<lparr>trace = [], disp = [], send_script = []\<rparr>))
          = Log INFO ''Received message at /print: (1,)''"
    by (simp add: print_handler_def logger_info_def emit_def repr_tuple_def str_int_def
          str_nat.simps)
  then show ?thesis
    using listen_flags_unused [where args = default_args and a = "''0.0.0.0''" and p = 5005
        and env = unreachable_env]
    by metis
qed

end
